theory Spec2Isabelle
  imports Complex_Main "HOL-Library.Word"
begin

section \<open>The product detail page (src/app/products/[id]/page.js)\<close>

text \<open>
  The page is one React component, \<open>ProductDetails\<close>, with five state fields, one effect
  that loads the product, two carousel handlers, two inline click handlers and a render
  body. The model keeps that shape: the state is a record, every handler is a function
  on it, the asynchronous loader is split at its single \<open>await\<close>, and the render body is
  a function from the state to a description of what is displayed. A JavaScript
  exception is the left summand of a result.
\<close>

subsection \<open>Values of the platform\<close>

text \<open>
  A JavaScript string is a sequence of UTF-16 code units. The star glyph of lines 180 and
  223 is the single code unit U+2605. The messages and class names of the page are
  ASCII and are kept as HOL strings.
\<close>

type_synonym utf16 = "16 word list"

definition star :: utf16 where
  "star = [0x2605]"

datatype js_error =
    TypeError
  | RangeError
  | SyntaxError
  | Error string
  | InvalidReactChild

text \<open>
  Numbers of the JSON body are finite and are modelled by the rationals (every finite
  double is one). \<open>Math.round\<close> returns the integer closest to its argument, the one
  closer to plus infinity when two are equally close: that is \<open>\<lfloor>x + 1/2\<rfloor>\<close>, exactly.
\<close>

definition Math_round :: "rat \<Rightarrow> int" where
  "Math_round x = \<lfloor>x + 1 / 2\<rfloor>"

text \<open>
  \<open>Array(n)\<close> throws a RangeError unless \<open>n\<close> is an integer with \<open>0 \<le> n < 2^32\<close>;
  \<open>.fill(s).join('')\<close> then concatenates \<open>n\<close> copies of \<open>s\<close>.
\<close>

definition Array_fill_join :: "int \<Rightarrow> utf16 \<Rightarrow> js_error + utf16" where
  "Array_fill_join n s =
     (if 0 \<le> n \<and> n < 2 ^ 32 then Inr (concat (replicate (nat n) s)) else Inl RangeError)"

subsection \<open>The product record of the API\<close>

text \<open>
  The record is owned by the API. Optional fields are options (\<open>None\<close> is an absent or
  null field). The rating of a product is read in two ways by the page, as an object
  with a \<open>rate\<close> property (line 180) and as a value to print (line 182), so both shapes
  are values of the field.
\<close>

record review =
  reviewerName :: string
  date :: string
  comment :: string
  rating :: "rat option"

datatype rating_json =
    RatingNumber rat
  | RatingObject "rat option"

record product =
  product_id :: string
  title :: string
  price :: rat
  category :: string
  description :: string
  stock :: int
  images :: "string list"
  tags :: "string list option"
  rating :: "rating_json option"
  reviews :: "review list option"

subsection \<open>The state of the component (lines 33 to 37)\<close>

record view_state =
  product :: "product option"
  loading :: bool
  error :: "string option"
  currentImageIndex :: int
  reviewsVisible :: bool

definition initial_state :: view_state where
  "initial_state =
     \<lparr>product = None, loading = True, error = None, currentImageIndex = 0,
      reviewsVisible = False\<rparr>"

subsection \<open>The environment: the network and the locale\<close>

text \<open>
  What \<open>fetch\<close> does with a URL and how the browser prints a date are outside the
  repository; both are parameters. A fetch either rejects (a network failure, a
  TypeError) or resolves to a response with a status and a body; the body is \<open>None\<close>
  when \<open>response.json()\<close> rejects on it.
\<close>

datatype fetch_outcome =
    NetworkFailure
  | Response nat "product option"

record env =
  fetch :: "string \<Rightarrow> fetch_outcome"
  toLocaleDateString :: "string \<Rightarrow> string"

definition ok :: "nat \<Rightarrow> bool" where
  "ok status = (200 \<le> status \<and> status \<le> 299)"

subsection \<open>fetchProductDetails (lines 15 to 21)\<close>

definition fetchProductDetails :: "env \<Rightarrow> string \<Rightarrow> js_error + product" where
  "fetchProductDetails e i =
     (case fetch e (''https://next-ecommerce-api.vercel.app/products/'' @ i) of
        NetworkFailure \<Rightarrow> Inl TypeError
      | Response status body \<Rightarrow>
          if \<not> ok status then Inl (Error ''Failed to fetch product details'')
          else (case body of None \<Rightarrow> Inl SyntaxError | Some p \<Rightarrow> Inr p))"

subsection \<open>loadProductDetails (lines 43 to 54)\<close>

text \<open>
  The asynchronous function runs lines 44 and 45 and the call of \<open>fetch\<close> at once, and
  the rest when the request settles. \<open>loadProductDetails_start\<close> is the first part,
  \<open>loadProductDetails_resume\<close> the second, given what \<open>fetchProductDetails\<close> produced.
  Its result is a sum so that an exception leaving the \<open>try\<close> statement would show.
\<close>

definition failed_to_load :: string where
  "failed_to_load = ''Failed to load product details. Please try again later.''"

definition loadProductDetails_start :: "view_state \<Rightarrow> view_state" where
  "loadProductDetails_start s = s\<lparr>loading := True, error := None\<rparr>"

definition loadProductDetails_resume ::
  "js_error + product \<Rightarrow> view_state \<Rightarrow> js_error + view_state" where
  "loadProductDetails_resume r s =
     (let tried = (case r of
                     Inl thrown \<Rightarrow> Inl thrown
                   | Inr productData \<Rightarrow> Inr (s\<lparr>product := Some productData\<rparr>));
          caught = (case tried of
                      Inl err \<Rightarrow> Inr (s\<lparr>error := Some failed_to_load\<rparr>)
                    | Inr s' \<Rightarrow> Inr s')
      in map_sum (\<lambda>x :: js_error. x) (\<lambda>s'. s'\<lparr>loading := False\<rparr>) caught)"

text \<open>One uninterrupted run of the loader, for the identifier \<open>i\<close>.\<close>

definition loadProductDetails :: "env \<Rightarrow> string \<Rightarrow> view_state \<Rightarrow> js_error + view_state" where
  "loadProductDetails e i s =
     loadProductDetails_resume (fetchProductDetails e i) (loadProductDetails_start s)"

subsection \<open>The click handlers (lines 69 to 82, 157 and 207)\<close>

text \<open>
  The two carousel handlers read \<open>product\<close> from the render they were created in, so the
  product is an argument. The thumbnail and the reviews button have inline handlers.
\<close>

definition handleNextImage :: "product \<Rightarrow> view_state \<Rightarrow> view_state" where
  "handleNextImage p s =
     s\<lparr>currentImageIndex :=
         (if currentImageIndex s = int (length (images p)) - 1 then 0
          else currentImageIndex s + 1)\<rparr>"

definition handlePreviousImage :: "product \<Rightarrow> view_state \<Rightarrow> view_state" where
  "handlePreviousImage p s =
     s\<lparr>currentImageIndex :=
         (if currentImageIndex s = 0 then int (length (images p)) - 1
          else currentImageIndex s - 1)\<rparr>"

definition thumbnail_onClick :: "nat \<Rightarrow> view_state \<Rightarrow> view_state" where
  "thumbnail_onClick index s = s\<lparr>currentImageIndex := int index\<rparr>"

definition reviews_button_onClick :: "view_state \<Rightarrow> view_state" where
  "reviews_button_onClick s = s\<lparr>reviewsVisible := \<not> reviewsVisible s\<rparr>"

subsection \<open>The render body (lines 58 to 64 and 84 to 244)\<close>

text \<open>
  What is displayed is a value: the loading element, the error page with its message,
  or the product page with the parts the component computes. A part that the component
  only copies from the product (title, price, category, description, stock, tags) is
  copied here too.
\<close>

record badge =
  badge_class :: string
  badge_label :: string

record thumbnail =
  thumb_src :: string
  thumb_selected :: bool
  thumb_alt :: nat

record review_card =
  card_name :: string
  card_date :: string
  card_comment :: string
  card_stars :: utf16

datatype reviews_section =
    ReviewCards "review_card list"
  | EmptyMessage string

record product_page =
  stock_badge :: badge
  main_image :: "string option"
  thumbnails :: "thumbnail list option"
  heading :: string
  price_text :: rat
  category_text :: string
  description_text :: string
  rating_stars :: utf16
  rated_text :: "rat option"
  stock_text :: int
  tags_shown :: "string list"
  reviews_button :: string
  reviews_panel :: "reviews_section option"

datatype rendered =
    LoadingElement
  | ErrorPageElement string
  | ProductPage product_page

text \<open>Lines 93 to 99: the class and the label of the stock badge.\<close>

definition render_stock_badge :: "product \<Rightarrow> badge" where
  "render_stock_badge p =
     \<lparr>badge_class = (if stock p > 0 then ''bg-indigo-600'' else ''bg-red-500''),
      badge_label = (if stock p > 0 then ''In Stock'' else ''Out of Stock'')\<rparr>"

text \<open>
  Line 102: \<open>product.images[currentImageIndex]\<close>. An index outside the array reads
  \<open>undefined\<close>.
\<close>

definition image_at :: "string list \<Rightarrow> int \<Rightarrow> string option" where
  "image_at xs i = (if 0 \<le> i \<and> i < int (length xs) then Some (xs ! nat i) else None)"

text \<open>Lines 147 to 167: the thumbnail strip, only for more than one image.\<close>

definition render_thumbnails :: "product \<Rightarrow> int \<Rightarrow> thumbnail list option" where
  "render_thumbnails p current =
     (if length (images p) > 1
      then Some (map (\<lambda>(index, image).
                   \<lparr>thumb_src = image, thumb_selected = (int index = current),
                    thumb_alt = index + 1\<rparr>)
                 (enumerate 0 (images p)))
      else None)"

text \<open>
  Line 180: \<open>product.rating?.rate\<close> is \<open>undefined\<close> unless the rating is an object
  with a \<open>rate\<close>; \<open>x || 0\<close> replaces \<open>undefined\<close>, \<open>null\<close> and \<open>0\<close> by \<open>0\<close>.
\<close>

definition optional_rate :: "rating_json option \<Rightarrow> rat option" where
  "optional_rate r =
     (case r of
        None \<Rightarrow> None
      | Some (RatingNumber n) \<Rightarrow> None
      | Some (RatingObject rate) \<Rightarrow> rate)"

definition or_zero :: "rat option \<Rightarrow> rat" where
  "or_zero x = (case x of None \<Rightarrow> 0 | Some r \<Rightarrow> if r = 0 then 0 else r)"

definition render_rating_stars :: "product \<Rightarrow> js_error + utf16" where
  "render_rating_stars p =
     Array_fill_join (Math_round (or_zero (optional_rate (product.rating p)))) star"

text \<open>
  Line 182: \<open>{product.rating}\<close> as a child of a span. React prints a number, prints
  nothing for \<open>null\<close> and \<open>undefined\<close>, and throws on a plain object.
\<close>

definition render_rated_text :: "product \<Rightarrow> js_error + rat option" where
  "render_rated_text p =
     (case product.rating p of
        None \<Rightarrow> Inr None
      | Some (RatingNumber n) \<Rightarrow> Inr (Some n)
      | Some (RatingObject rate) \<Rightarrow> Inl InvalidReactChild)"

text \<open>Lines 216 to 225: one review.\<close>

definition render_review :: "env \<Rightarrow> review \<Rightarrow> js_error + review_card" where
  "render_review e r =
     (case Array_fill_join (Math_round (or_zero (review.rating r))) star of
        Inl thrown \<Rightarrow> Inl thrown
      | Inr stars \<Rightarrow>
          Inr \<lparr>card_name = reviewerName r,
               card_date = toLocaleDateString e (date r),
               card_comment = comment r,
               card_stars = stars\<rparr>)"

text \<open>\<open>Array.prototype.map\<close> with a callback that may throw: the first exception ends it.\<close>

fun Array_map :: "('a \<Rightarrow> js_error + 'b) \<Rightarrow> 'a list \<Rightarrow> js_error + 'b list" where
  "Array_map f [] = Inr []"
| "Array_map f (x # xs) =
     (case f x of
        Inl thrown \<Rightarrow> Inl thrown
      | Inr y \<Rightarrow> (case Array_map f xs of Inl thrown \<Rightarrow> Inl thrown | Inr ys \<Rightarrow> Inr (y # ys)))"

text \<open>
  Lines 212 to 231: the reviews panel. \<open>product.reviews?.length > 0\<close> is false for an
  absent \<open>reviews\<close> field.
\<close>

definition render_reviews_panel ::
  "env \<Rightarrow> bool \<Rightarrow> product \<Rightarrow> js_error + reviews_section option" where
  "render_reviews_panel e visible p =
     (if visible
      then (case reviews p of
              None \<Rightarrow> Inr (Some (EmptyMessage ''No reviews yet.''))
            | Some rs \<Rightarrow>
                if length rs > 0
                then (case Array_map (render_review e) rs of
                        Inl thrown \<Rightarrow> Inl thrown
                      | Inr cards \<Rightarrow> Inr (Some (ReviewCards cards)))
                else Inr (Some (EmptyMessage ''No reviews yet.'')))
      else Inr None)"

text \<open>
  Lines 84 to 244, reached when neither early return is taken. With no product in the
  state, line 95 reads a property of \<open>null\<close> and throws. The exceptions of the
  component's own expressions come first, in source order; React's comes when it
  processes the returned element.
\<close>

definition render_product_page :: "env \<Rightarrow> view_state \<Rightarrow> js_error + rendered" where
  "render_product_page e s =
     (case product s of
        None \<Rightarrow> Inl TypeError
      | Some p \<Rightarrow>
          (case render_rating_stars p of
             Inl thrown \<Rightarrow> Inl thrown
           | Inr stars \<Rightarrow>
               (case render_reviews_panel e (reviewsVisible s) p of
                  Inl thrown \<Rightarrow> Inl thrown
                | Inr panel \<Rightarrow>
                    (case render_rated_text p of
                       Inl thrown \<Rightarrow> Inl thrown
                     | Inr rated \<Rightarrow>
                         Inr (ProductPage
                           \<lparr>stock_badge = render_stock_badge p,
                            main_image = image_at (images p) (currentImageIndex s),
                            thumbnails = render_thumbnails p (currentImageIndex s),
                            heading = title p,
                            price_text = price p,
                            category_text = category p,
                            description_text = description p,
                            rating_stars = stars,
                            rated_text = rated,
                            stock_text = stock p,
                            tags_shown = (case tags p of None \<Rightarrow> [] | Some ts \<Rightarrow> ts),
                            reviews_button =
                              (if reviewsVisible s then ''Hide Reviews'' else ''Show Reviews''),
                            reviews_panel = panel\<rparr>)))))"

text \<open>
  The whole body: the two early returns of lines 58 to 64, then the page. \<open>if (error)\<close>
  takes a non-empty string.
\<close>

definition ProductDetails :: "env \<Rightarrow> view_state \<Rightarrow> js_error + rendered" where
  "ProductDetails e s =
     (if loading s then Inr LoadingElement
      else (case error s of
              None \<Rightarrow> render_product_page e s
            | Some message \<Rightarrow>
                if message \<noteq> [] then Inr (ErrorPageElement message)
                else render_product_page e s))"

subsection \<open>The mounted page: identifier changes, requests in flight, clicks\<close>

text \<open>
  The effect of lines 42 to 56 runs after the first render and after every render in
  which \<open>id\<close> differs from its last value. Each run starts a request that nothing
  cancels, so several can be in flight; \<open>in_flight\<close> lists their identifiers, oldest
  first, and they may settle in any order. A click reaches a handler only when the
  product page is what is displayed, and a thumbnail only when it is rendered. The
  component instance is the same before and after an identifier change, as the
  dependency array of the effect supposes. A render separates any two events, so the
  \<open>reviewsVisible\<close> that the handler of line 207 negates is the current one.
\<close>

record page =
  params_id :: string
  view :: view_state
  in_flight :: "string list"

datatype event =
    ChangeId string
  | Settle nat
  | ClickNext
  | ClickPrevious
  | ClickThumbnail nat
  | ClickReviewsButton

definition mount :: "string \<Rightarrow> page" where
  "mount i =
     \<lparr>params_id = i, view = loadProductDetails_start initial_state, in_flight = [i]\<rparr>"

definition click :: "env \<Rightarrow> (product \<Rightarrow> view_state \<Rightarrow> view_state) \<Rightarrow> page \<Rightarrow> page" where
  "click e handler pg =
     (case (ProductDetails e (view pg), product (view pg)) of
        (Inr (ProductPage shown), Some p) \<Rightarrow> pg\<lparr>view := handler p (view pg)\<rparr>
      | _ \<Rightarrow> pg)"

fun step :: "env \<Rightarrow> page \<Rightarrow> event \<Rightarrow> page" where
  "step e pg (ChangeId i) =
     (if i = params_id pg then pg
      else pg\<lparr>params_id := i,
              view := loadProductDetails_start (view pg),
              in_flight := in_flight pg @ [i]\<rparr>)"
| "step e pg (Settle k) =
     (if k < length (in_flight pg)
      then (case loadProductDetails_resume (fetchProductDetails e (in_flight pg ! k)) (view pg) of
              Inl unhandled \<Rightarrow> pg\<lparr>in_flight := take k (in_flight pg) @ drop (Suc k) (in_flight pg)\<rparr>
            | Inr s' \<Rightarrow>
                pg\<lparr>view := s',
                   in_flight := take k (in_flight pg) @ drop (Suc k) (in_flight pg)\<rparr>)
      else pg)"
| "step e pg ClickNext = click e handleNextImage pg"
| "step e pg ClickPrevious = click e handlePreviousImage pg"
| "step e pg (ClickThumbnail k) =
     click e (\<lambda>p s. if length (images p) > 1 \<and> k < length (images p)
                     then thumbnail_onClick k s else s) pg"
| "step e pg ClickReviewsButton = click e (\<lambda>p. reviews_button_onClick) pg"

definition run :: "env \<Rightarrow> event list \<Rightarrow> page \<Rightarrow> page" where
  "run e evs pg = foldl (step e) pg evs"

subsection \<open>Sample data\<close>

text \<open>
  Two products shaped like the API's, with a numeric rating as the API sends it, and a
  network that serves them under the identifiers 1 and 2 and answers 404 otherwise.
\<close>

definition ann_review :: review where
  "ann_review =
     \<lparr>reviewerName = ''Ann'', date = ''2024-05-01T10:00:00.000Z'', comment = ''Good'',
      rating = Some (46 / 10)\<rparr>"

definition bob_review :: review where
  "bob_review =
     \<lparr>reviewerName = ''Bob'', date = ''2024-06-01T10:00:00.000Z'', comment = ''Fine'',
      rating = Some (44 / 10)\<rparr>"

definition lamp :: product where
  "lamp =
     \<lparr>product_id = ''1'', title = ''Lamp'', price = 1999 / 100, category = ''home'',
      description = ''A lamp'', stock = 3, images = [''a0.png'', ''a1.png'', ''a2.png''],
      tags = Some [''light''], rating = Some (RatingNumber (46 / 10)),
      reviews = Some [ann_review, bob_review]\<rparr>"

definition desk :: product where
  "desk =
     \<lparr>product_id = ''2'', title = ''Desk'', price = 120, category = ''home'',
      description = ''A desk'', stock = 0, images = [''b0.png''],
      tags = None, rating = None, reviews = None\<rparr>"

definition sample_env :: env where
  "sample_env =
     \<lparr>fetch = (\<lambda>url.
         if url = ''https://next-ecommerce-api.vercel.app/products/1''
         then Response 200 (Some lamp)
         else if url = ''https://next-ecommerce-api.vercel.app/products/2''
         then Response 200 (Some desk)
         else Response 404 None),
      toLocaleDateString = take 10\<rparr>"

text \<open>The state in which the lamp is displayed, image \<open>k\<close> selected.\<close>

definition lamp_shown :: "int \<Rightarrow> bool \<Rightarrow> view_state" where
  "lamp_shown k visible =
     \<lparr>product = Some lamp, loading = False, error = None, currentImageIndex = k,
      reviewsVisible = visible\<rparr>"

subsection \<open>Auxiliary predicates\<close>

text \<open>
  \<open>changes_id\<close> singles out the identifier changes among the events. \<open>index_in_range\<close>
  says that the carousel index is 0 while no product is stored and inside the images
  sequence of the stored product afterwards. \<open>single_load_inv\<close> adds what holds while the
  identifier stays \<open>i\<close>: at most the one request of the mount is in flight, and no
  product is stored before it settles.
\<close>

fun changes_id :: "event \<Rightarrow> bool" where
  "changes_id (ChangeId i) = True"
| "changes_id ev = False"

definition index_in_range :: "view_state \<Rightarrow> bool" where
  "index_in_range s =
     (case product s of
        None \<Rightarrow> currentImageIndex s = 0
      | Some p \<Rightarrow> 0 \<le> currentImageIndex s \<and> currentImageIndex s < int (length (images p)))"

definition single_load_inv :: "string \<Rightarrow> page \<Rightarrow> bool" where
  "single_load_inv i pg =
     (index_in_range (view pg) \<and>
      (in_flight pg = [] \<or> (in_flight pg = [i] \<and> product (view pg) = None)))"

text \<open>
  The responses that carry a product. \<open>committed\<close> is what an event delivers to
  \<open>setProduct\<close>: for the settling of a request in flight that gets a 2xx response with a
  parsed product, the request's identifier and that product; nothing for any other
  event. \<open>commits\<close> lists them along a run, in the order in which the responses settle.
\<close>

fun committed :: "env \<Rightarrow> page \<Rightarrow> event \<Rightarrow> (string \<times> product) option" where
  "committed e pg (Settle k) =
     (if k < length (in_flight pg)
      then (case fetchProductDetails e (in_flight pg ! k) of
              Inl thrown \<Rightarrow> None
            | Inr q \<Rightarrow> Some (in_flight pg ! k, q))
      else None)"
| "committed e pg ev = None"

fun commits :: "env \<Rightarrow> page \<Rightarrow> event list \<Rightarrow> (string \<times> product) list" where
  "commits e pg [] = []"
| "commits e pg (ev # evs) =
     (case committed e pg ev of
        None \<Rightarrow> commits e (step e pg ev) evs
      | Some c \<Rightarrow> c # commits e (step e pg ev) evs)"

section \<open>Properties\<close>

subsection \<open>The carousel\<close>

text \<open>
  Claim C3. For a product with a non-empty images sequence of length \<open>n\<close> and a current
  index \<open>i\<close> with \<open>0 \<le> i < n\<close>: "next" yields 0 when \<open>i = n - 1\<close> and \<open>i + 1\<close> otherwise,
  which is \<open>(i + 1) mod n\<close>; "previous" yields \<open>n - 1\<close> when \<open>i = 0\<close> and \<open>i - 1\<close>
  otherwise, which is \<open>(i - 1) mod n\<close>; clicking thumbnail \<open>k\<close> sets the index to \<open>k\<close>.
\<close>

theorem carousel_next_previous_thumbnail:
  fixes p :: product and s :: view_state and k :: nat
  assumes nonempty: "images p \<noteq> []"
  assumes lower: "0 \<le> currentImageIndex s"
  assumes upper: "currentImageIndex s < int (length (images p))"
  shows "currentImageIndex (handleNextImage p s) =
           (if currentImageIndex s = int (length (images p)) - 1 then 0
            else currentImageIndex s + 1)
         \<and> currentImageIndex (handleNextImage p s) =
           (currentImageIndex s + 1) mod int (length (images p))
         \<and> currentImageIndex (handlePreviousImage p s) =
           (if currentImageIndex s = 0 then int (length (images p)) - 1
            else currentImageIndex s - 1)
         \<and> currentImageIndex (handlePreviousImage p s) =
           (currentImageIndex s - 1) mod int (length (images p))
         \<and> currentImageIndex (thumbnail_onClick k s) = int k"
proof -
  define n where "n = int (length (images p))"
  define i where "i = currentImageIndex s"
  have next_cases: "currentImageIndex (handleNextImage p s) = (if i = n - 1 then 0 else i + 1)"
    by (simp add: handleNextImage_def n_def i_def)
  have previous_cases:
    "currentImageIndex (handlePreviousImage p s) = (if i = 0 then n - 1 else i - 1)"
    by (simp add: handlePreviousImage_def n_def i_def)
  have thumb: "currentImageIndex (thumbnail_onClick k s) = int k"
    by (simp add: thumbnail_onClick_def)
  from lower upper have bounds: "0 \<le> i" "i < n"
    by (simp_all add: n_def i_def)
  have next_mod: "(if i = n - 1 then 0 else i + 1) = (i + 1) mod n"
  proof (cases "i = n - 1")
    case True
    then show ?thesis by simp
  next
    case False
    with bounds have "(i + 1) mod n = i + 1" by simp
    with False show ?thesis by simp
  qed
  have previous_mod: "(if i = 0 then n - 1 else i - 1) = (i - 1) mod n"
  proof (cases "i = 0")
    case True
    from bounds have "0 < n" by simp
    then have "(- 1) mod n = n - 1"
      by (simp add: zmod_minus1)
    with True show ?thesis by simp
  next
    case False
    with bounds have "(i - 1) mod n = i - 1" by simp
    with False show ?thesis by simp
  qed
  from next_cases previous_cases thumb next_mod previous_mod show ?thesis
    unfolding n_def i_def by simp
qed

theorem carousel_next_previous_thumbnail_witness:
  "images lamp \<noteq> [] \<and> 0 \<le> currentImageIndex (lamp_shown 2 False)
   \<and> currentImageIndex (lamp_shown 2 False) < int (length (images lamp))
   \<and> currentImageIndex (handleNextImage lamp (lamp_shown 2 False)) = 0
   \<and> currentImageIndex (handlePreviousImage lamp (lamp_shown 2 False)) = 1
   \<and> currentImageIndex (thumbnail_onClick 1 (lamp_shown 2 False)) = 1"
  using carousel_next_previous_thumbnail [of lamp "lamp_shown 2 False" 1]
  by (simp add: lamp_def lamp_shown_def)

text \<open>
  The handlers keep the index inside the images sequence of the displayed product, and
  so does every event of a page whose identifier does not change.
\<close>

lemma handlers_keep_range:
  assumes "product s = Some p" and "index_in_range s"
  shows "index_in_range (handleNextImage p s)"
    and "index_in_range (handlePreviousImage p s)"
    and "k < length (images p) \<Longrightarrow> index_in_range (thumbnail_onClick k s)"
    and "index_in_range (reviews_button_onClick s)"
  using assms
  by (auto simp: index_in_range_def handleNextImage_def handlePreviousImage_def
      thumbnail_onClick_def reviews_button_onClick_def)

lemma handlers_keep_product:
  "product (handleNextImage p s) = product s"
  "product (handlePreviousImage p s) = product s"
  "product (thumbnail_onClick k s) = product s"
  "product (reviews_button_onClick s) = product s"
  by (simp_all add: handleNextImage_def handlePreviousImage_def thumbnail_onClick_def
      reviews_button_onClick_def)

lemma click_keeps_inv:
  assumes "single_load_inv i pg"
    and "\<And>p s. product s = Some p \<Longrightarrow> index_in_range s \<Longrightarrow> index_in_range (h p s)"
    and "\<And>p s. product (h p s) = product s"
  shows "single_load_inv i (click e h pg)"
  using assms
  by (auto simp: click_def single_load_inv_def split: sum.splits rendered.splits option.splits)

lemma mount_inv: "single_load_inv i (mount i)"
  by (simp add: single_load_inv_def mount_def index_in_range_def loadProductDetails_start_def
      initial_state_def)

lemma settle_keeps_inv:
  assumes "single_load_inv i pg"
    and "\<forall>p. fetchProductDetails e i = Inr p \<longrightarrow> images p \<noteq> []"
  shows "single_load_inv i (step e pg (Settle k))"
proof (cases "k < length (in_flight pg)")
  case False
  with assms show ?thesis by simp
next
  case True
  with assms(1) have fl: "in_flight pg = [i]" and none: "product (view pg) = None"
    and k0: "k = 0"
    by (auto simp: single_load_inv_def)
  from assms(1) none have idx: "currentImageIndex (view pg) = 0"
    by (simp add: single_load_inv_def index_in_range_def)
  show ?thesis
  proof (cases "fetchProductDetails e i")
    case (Inl thrown)
    with fl k0 none idx show ?thesis
      by (simp add: single_load_inv_def index_in_range_def loadProductDetails_resume_def)
  next
    case (Inr p)
    with assms(2) have "images p \<noteq> []" by simp
    with Inr fl k0 idx show ?thesis
      by (simp add: single_load_inv_def index_in_range_def loadProductDetails_resume_def)
  qed
qed

lemma step_keeps_inv:
  assumes "single_load_inv i pg"
    and "\<forall>p. fetchProductDetails e i = Inr p \<longrightarrow> images p \<noteq> []"
    and "\<not> changes_id ev"
  shows "single_load_inv i (step e pg ev)"
proof (cases ev)
  case (ChangeId j)
  with assms(3) show ?thesis by simp
next
  case (Settle k)
  with assms settle_keeps_inv show ?thesis by simp
next
  case ClickNext
  have "single_load_inv i (click e handleNextImage pg)"
    by (rule click_keeps_inv [OF assms(1)])
      (simp_all add: handlers_keep_range handlers_keep_product)
  with ClickNext show ?thesis by simp
next
  case ClickPrevious
  have "single_load_inv i (click e handlePreviousImage pg)"
    by (rule click_keeps_inv [OF assms(1)])
      (simp_all add: handlers_keep_range handlers_keep_product)
  with ClickPrevious show ?thesis by simp
next
  case (ClickThumbnail k)
  have "single_load_inv i
          (click e (\<lambda>p s. if length (images p) > 1 \<and> k < length (images p)
                           then thumbnail_onClick k s else s) pg)"
    by (rule click_keeps_inv [OF assms(1)])
      (simp_all add: handlers_keep_range handlers_keep_product)
  with ClickThumbnail show ?thesis by simp
next
  case ClickReviewsButton
  have "single_load_inv i (click e (\<lambda>p. reviews_button_onClick) pg)"
    by (rule click_keeps_inv [OF assms(1)])
      (simp_all add: handlers_keep_range handlers_keep_product)
  with ClickReviewsButton show ?thesis by simp
qed

lemma run_keeps_inv:
  assumes "\<forall>p. fetchProductDetails e i = Inr p \<longrightarrow> images p \<noteq> []"
    and "\<forall>ev \<in> set evs. \<not> changes_id ev"
    and "single_load_inv i pg"
  shows "single_load_inv i (run e evs pg)"
  using assms(2,3)
proof (induction evs arbitrary: pg)
  case Nil
  then show ?case by (simp add: run_def)
next
  case (Cons ev evs)
  from Cons.prems assms(1) have "single_load_inv i (step e pg ev)"
    by (simp add: step_keeps_inv)
  with Cons show ?case by (simp add: run_def)
qed

text \<open>
  Claim C4. The carousel index starts at 0. For a page mounted for an identifier whose
  product has a non-empty images sequence, after any sequence of events that leaves the
  identifier alone (the request settling, "next", "previous", thumbnail clicks, the
  reviews button), the index is 0 while no product is stored and within
  \<open>[0, images.length)\<close> of the stored product afterwards. A thumbnail click reaches its
  handler only for an index of the images sequence (\<open>step\<close>).
\<close>

theorem carousel_index_in_range:
  assumes "\<forall>p. fetchProductDetails e i = Inr p \<longrightarrow> images p \<noteq> []"
    and "\<forall>ev \<in> set evs. \<not> changes_id ev"
  shows "currentImageIndex initial_state = 0
         \<and> (case product (view (run e evs (mount i))) of
              None \<Rightarrow> currentImageIndex (view (run e evs (mount i))) = 0
            | Some p \<Rightarrow>
                0 \<le> currentImageIndex (view (run e evs (mount i)))
                \<and> currentImageIndex (view (run e evs (mount i))) < int (length (images p)))"
proof -
  from assms have "single_load_inv i (run e evs (mount i))"
    by (rule run_keeps_inv) (rule mount_inv)
  then show ?thesis
    by (simp add: single_load_inv_def index_in_range_def initial_state_def)
qed

theorem carousel_index_in_range_witness:
  "fetchProductDetails sample_env ''1'' = Inr lamp \<and> images lamp \<noteq> []
   \<and> product (view (run sample_env [Settle 0, ClickNext, ClickNext, ClickNext, ClickPrevious,
        ClickThumbnail 1, ClickThumbnail 7, ClickNext] (mount ''1''))) = Some lamp
   \<and> currentImageIndex (view (run sample_env [Settle 0, ClickNext, ClickNext, ClickNext,
        ClickPrevious, ClickThumbnail 1, ClickThumbnail 7, ClickNext] (mount ''1''))) = 2
   \<and> int (length (images lamp)) = 3"
proof -
  have fetched: "fetchProductDetails sample_env ''1'' = Inr lamp"
    by (simp add: fetchProductDetails_def sample_env_def ok_def)
  have nonempty: "images lamp \<noteq> []"
    by (simp add: lamp_def)
  have evs: "\<forall>ev \<in> set [Settle 0, ClickNext, ClickNext, ClickNext, ClickPrevious,
        ClickThumbnail 1, ClickThumbnail 7, ClickNext]. \<not> changes_id ev"
    by simp
  from fetched nonempty
  have hyp: "\<forall>p. fetchProductDetails sample_env ''1'' = Inr p \<longrightarrow> images p \<noteq> []"
    by simp
  have shown: "view (run sample_env [Settle 0, ClickNext, ClickNext, ClickNext, ClickPrevious,
        ClickThumbnail 1, ClickThumbnail 7, ClickNext] (mount ''1'')) = lamp_shown 2 False"
    by code_simp
  from carousel_index_in_range [OF hyp evs] fetched nonempty shown show ?thesis
    by (simp add: lamp_shown_def lamp_def)
qed

subsection \<open>The reviews button\<close>

text \<open>
  Claim C8. The reviews panel starts hidden, each click of the button negates the
  visibility, so after \<open>n\<close> clicks from the initial state the panel is visible exactly
  when \<open>n\<close> is odd, and two clicks bring any state back to itself.
\<close>

theorem reviews_button_parity:
  "reviewsVisible initial_state = False
   \<and> reviewsVisible (reviews_button_onClick s) = (\<not> reviewsVisible s)
   \<and> reviewsVisible ((reviews_button_onClick ^^ n) initial_state) = odd n
   \<and> reviews_button_onClick (reviews_button_onClick s) = s"
proof -
  have "reviewsVisible ((reviews_button_onClick ^^ n) initial_state) = odd n"
    by (induction n) (simp_all add: initial_state_def reviews_button_onClick_def)
  then show ?thesis
    by (simp add: initial_state_def reviews_button_onClick_def)
qed

subsection \<open>Loading\<close>

text \<open>
  What the second part of the loader does with each result of \<open>fetchProductDetails\<close>:
  the \<open>catch\<close> clause takes every exception, so the loader itself never throws.
\<close>

lemma resume_failure:
  "loadProductDetails_resume (Inl thrown) s = Inr (s\<lparr>error := Some failed_to_load, loading := False\<rparr>)"
  by (simp add: loadProductDetails_resume_def)

lemma resume_success:
  "loadProductDetails_resume (Inr p) s = Inr (s\<lparr>product := Some p, loading := False\<rparr>)"
  by (simp add: loadProductDetails_resume_def)

lemma resume_never_throws: "\<exists>s'. loadProductDetails_resume r s = Inr s'"
  by (cases r) (simp_all add: resume_failure resume_success)

text \<open>
  Claim C5. For every fetch outcome that is a non-2xx response or a network error, the
  loader catches the error, stores the fixed message
  'Failed to load product details. Please try again later.' in the state, does not
  rethrow, and the view renders the error page in place of the product. For every 2xx
  response with a parsed product, the error stays null and that product is stored.
\<close>

theorem load_failure_caught_success_stored:
  fixes e :: env and i :: string and s :: view_state
  shows "(\<exists>s'. loadProductDetails e i s = Inr s')
    \<and> ((fetch e (''https://next-ecommerce-api.vercel.app/products/'' @ i) = NetworkFailure
        \<or> (\<exists>status body. fetch e (''https://next-ecommerce-api.vercel.app/products/'' @ i) = Response status body \<and> \<not> ok status))
       \<longrightarrow> loadProductDetails e i s = Inr (s\<lparr>loading := False, error := Some failed_to_load\<rparr>)
           \<and> failed_to_load = ''Failed to load product details. Please try again later.''
           \<and> ProductDetails e (s\<lparr>loading := False, error := Some failed_to_load\<rparr>) = Inr (ErrorPageElement failed_to_load))
    \<and> (\<forall>status p. fetch e (''https://next-ecommerce-api.vercel.app/products/'' @ i) = Response status (Some p) \<and> ok status
       \<longrightarrow> loadProductDetails e i s = Inr (s\<lparr>loading := False, error := None, product := Some p\<rparr>))"
proof (intro conjI impI allI)
  show "\<exists>s'. loadProductDetails e i s = Inr s'"
    unfolding loadProductDetails_def by (rule resume_never_throws)
next
  assume failed: "fetch e (''https://next-ecommerce-api.vercel.app/products/'' @ i) = NetworkFailure
        \<or> (\<exists>status body. fetch e (''https://next-ecommerce-api.vercel.app/products/'' @ i) = Response status body \<and> \<not> ok status)"
  then have "\<exists>thrown. fetchProductDetails e i = Inl thrown"
    by (auto simp: fetchProductDetails_def)
  then show "loadProductDetails e i s = Inr (s\<lparr>loading := False, error := Some failed_to_load\<rparr>)"
    by (auto simp: loadProductDetails_def resume_failure loadProductDetails_start_def)
  show "failed_to_load = ''Failed to load product details. Please try again later.''"
    by (simp add: failed_to_load_def)
  show "ProductDetails e (s\<lparr>loading := False, error := Some failed_to_load\<rparr>) = Inr (ErrorPageElement failed_to_load)"
    by (simp add: ProductDetails_def failed_to_load_def)
next
  fix status p
  assume "fetch e (''https://next-ecommerce-api.vercel.app/products/'' @ i) = Response status (Some p) \<and> ok status"
  then have "fetchProductDetails e i = Inr p"
    by (simp add: fetchProductDetails_def)
  then show "loadProductDetails e i s = Inr (s\<lparr>loading := False, error := None, product := Some p\<rparr>)"
    by (simp add: loadProductDetails_def resume_success loadProductDetails_start_def)
qed

theorem load_failure_caught_success_stored_witness:
  "fetch sample_env (''https://next-ecommerce-api.vercel.app/products/'' @ ''9'') = Response 404 None
   \<and> \<not> ok 404
   \<and> loadProductDetails sample_env ''9'' (lamp_shown 1 True) =
       Inr ((lamp_shown 1 True)\<lparr>loading := False, error := Some failed_to_load\<rparr>)
   \<and> ProductDetails sample_env ((lamp_shown 1 True)\<lparr>loading := False, error := Some failed_to_load\<rparr>) =
       Inr (ErrorPageElement ''Failed to load product details. Please try again later.'')
   \<and> fetch sample_env (''https://next-ecommerce-api.vercel.app/products/'' @ ''2'') = Response 200 (Some desk)
   \<and> ok 200
   \<and> loadProductDetails sample_env ''2'' (lamp_shown 1 True) =
       Inr ((lamp_shown 1 True)\<lparr>loading := False, error := None, product := Some desk\<rparr>)"
  using load_failure_caught_success_stored [of sample_env "''9''" "lamp_shown 1 True"]
    load_failure_caught_success_stored [of sample_env "''2''" "lamp_shown 1 True"]
  by (simp add: sample_env_def ok_def)

text \<open>
  A 2xx response whose body is not JSON makes \<open>response.json()\<close> reject inside the
  same \<open>try\<close>, and is a failure like the others.
\<close>

lemma unparsable_body_is_failure:
  assumes "fetch e (''https://next-ecommerce-api.vercel.app/products/'' @ i) = Response status None"
  shows "loadProductDetails e i s = Inr (s\<lparr>loading := False, error := Some failed_to_load\<rparr>)"
proof -
  from assms have "\<exists>thrown. fetchProductDetails e i = Inl thrown"
    by (simp add: fetchProductDetails_def)
  then show ?thesis
    by (auto simp: loadProductDetails_def resume_failure loadProductDetails_start_def)
qed

text \<open>
  Claim C2, as stated, says that the transition to Loading clears the prior product as
  well as the prior error. Lines 44 and 45 set \<open>loading\<close> and clear \<open>error\<close>; nothing
  calls \<open>setProduct\<close> there. After the lamp has loaded and the identifier has changed to
  2, the page is loading, the new request is in flight, and the lamp is still the stored
  product.
\<close>

theorem load_start_keeps_product_counterexample:
  "loading (view (run sample_env [Settle 0, ChangeId ''2''] (mount ''1'')))
   \<and> in_flight (run sample_env [Settle 0, ChangeId ''2''] (mount ''1'')) = [''2'']
   \<and> product (view (run sample_env [Settle 0, ChangeId ''2''] (mount ''1''))) = Some lamp"
  by (simp add: run_def mount_def sample_env_def fetchProductDetails_def ok_def
      loadProductDetails_resume_def loadProductDetails_start_def initial_state_def)

text \<open>
  Claim C2, amended. On every transition to Loading (on mount and on every identifier
  change) the loader sets the loading flag and clears the prior error before the request
  starts, and leaves the stored product as it is. The stale product is not displayed:
  the view shows the loading element while loading, and after a failure it shows the
  error page with the fixed message.
\<close>

theorem load_start_clears_error_and_hides_product:
  "loading (loadProductDetails_start s)
   \<and> error (loadProductDetails_start s) = None
   \<and> product (loadProductDetails_start s) = product s
   \<and> ProductDetails e (loadProductDetails_start s) = Inr LoadingElement
   \<and> view (mount i) = loadProductDetails_start initial_state
   \<and> view (step e pg (ChangeId i)) =
       (if i = params_id pg then view pg else loadProductDetails_start (view pg))
   \<and> loadProductDetails_resume (Inl thrown) (loadProductDetails_start s) =
       Inr (s\<lparr>loading := False, error := Some failed_to_load\<rparr>)
   \<and> ProductDetails e (s\<lparr>loading := False, error := Some failed_to_load\<rparr>) =
       Inr (ErrorPageElement ''Failed to load product details. Please try again later.'')"
  by (simp add: loadProductDetails_start_def ProductDetails_def mount_def
      loadProductDetails_resume_def failed_to_load_def)

subsection \<open>Requests that are superseded\<close>

text \<open>
  Claim C6, as stated, says that when the identifier changes while a request is
  pending, the state reflects only the product of the latest identifier once all
  requests have settled. Nothing in the component cancels a request or compares a
  response with the current identifier. Mount for 1, change to 2, let the request for 2
  settle, then the request for 1: no request is left, the identifier is 2, whose product
  is the desk, and the state holds and displays the lamp.
\<close>

theorem superseded_response_overwrites_counterexample:
  "params_id (run sample_env [ChangeId ''2'', Settle 1, Settle 0] (mount ''1'')) = ''2''
   \<and> in_flight (run sample_env [ChangeId ''2'', Settle 1, Settle 0] (mount ''1'')) = []
   \<and> fetchProductDetails sample_env ''2'' = Inr desk
   \<and> product (view (run sample_env [ChangeId ''2'', Settle 1, Settle 0] (mount ''1''))) = Some lamp
   \<and> lamp \<noteq> desk
   \<and> ProductDetails sample_env (view (run sample_env [ChangeId ''2'', Settle 1, Settle 0] (mount ''1'')))
      = ProductDetails sample_env (lamp_shown 0 False)"
  by (simp add: run_def mount_def sample_env_def fetchProductDetails_def ok_def
      loadProductDetails_resume_def loadProductDetails_start_def initial_state_def
      lamp_def desk_def lamp_shown_def ProductDetails_def)

lemma run_append: "run e (evs @ evs') pg = run e evs' (run e evs pg)"
  by (simp add: run_def)

text \<open>
  No event but a response with a product changes the stored product, so after a run
  the stored product is the last one committed.
\<close>

lemma click_keeps_product:
  assumes "\<And>p s. product (h p s) = product s"
  shows "product (view (click e h pg)) = product (view pg)"
  using assms by (simp add: click_def split: sum.splits rendered.splits option.splits)

lemma step_product:
  "product (view (step e pg ev)) =
     (case committed e pg ev of None \<Rightarrow> product (view pg) | Some c \<Rightarrow> Some (snd c))"
proof (cases ev)
  case (ChangeId j)
  then show ?thesis by (simp add: loadProductDetails_start_def)
next
  case (Settle k)
  then show ?thesis
    by (cases "fetchProductDetails e (in_flight pg ! k)")
      (simp_all add: resume_failure resume_success)
next
  case ClickNext
  then show ?thesis by (simp add: click_keeps_product handlers_keep_product)
next
  case ClickPrevious
  then show ?thesis by (simp add: click_keeps_product handlers_keep_product)
next
  case (ClickThumbnail k)
  then show ?thesis by (simp add: click_keeps_product handlers_keep_product)
next
  case ClickReviewsButton
  then show ?thesis by (simp add: click_keeps_product handlers_keep_product)
qed

lemma run_product:
  "product (view (run e evs pg)) =
     (case commits e pg evs of [] \<Rightarrow> product (view pg) | c # cs \<Rightarrow> Some (snd (last (c # cs))))"
proof (induction evs arbitrary: pg)
  case Nil
  then show ?case by (simp add: run_def)
next
  case (Cons ev evs)
  have "run e (ev # evs) pg = run e evs (step e pg ev)"
    by (simp add: run_def)
  with Cons.IH [of "step e pg ev"] step_product [of e pg ev] show ?case
    by (auto split: option.splits list.splits)
qed

lemma committed_fetched:
  assumes "committed e pg ev = Some (j, q)"
  shows "fetchProductDetails e j = Inr q"
  using assms by (cases ev) (auto split: if_splits sum.splits)

lemma commits_fetched:
  assumes "(j, q) \<in> set (commits e pg evs)"
  shows "fetchProductDetails e j = Inr q"
  using assms
proof (induction evs arbitrary: pg)
  case Nil
  then show ?case by simp
next
  case (Cons ev evs)
  then show ?case
    by (cases "committed e pg ev") (auto dest: committed_fetched)
qed

text \<open>
  Claim C6, amended. A response is committed when it settles, with no check against
  the current identifier. After any execution from the mount, and so once all requests
  in flight have settled, the stored product is the product of the last 2xx response
  with a parsed product to settle, in the order in which the responses settle and
  whatever identifier it was requested for (and null if there was none); each committed
  product is the one fetched for its request's identifier. Hence the state holds the
  product fetched for the latest identifier whenever the last response committed was
  requested for that identifier. In particular, when the only request still in flight
  is the one for the current identifier and it gets a 2xx response with a parsed
  product, then after it settles no request is in flight, the identifier is unchanged
  and the stored product is the one fetched for it.
\<close>

theorem settled_state_holds_last_response:
  fixes e :: env and evs :: "event list" and i :: string and q :: product
  shows "product (view (run e evs (mount i))) =
           (case commits e (mount i) evs of
              [] \<Rightarrow> None
            | c # cs \<Rightarrow> Some (snd (last (c # cs))))
         \<and> (\<forall>c \<in> set (commits e (mount i) evs). fetchProductDetails e (fst c) = Inr (snd c))
         \<and> (commits e (mount i) evs \<noteq> []
              \<and> fst (last (commits e (mount i) evs)) = params_id (run e evs (mount i))
            \<longrightarrow> fetchProductDetails e (params_id (run e evs (mount i))) =
                  Inr (snd (last (commits e (mount i) evs)))
                \<and> product (view (run e evs (mount i))) =
                  Some (snd (last (commits e (mount i) evs))))
         \<and> (in_flight (run e evs (mount i)) = [params_id (run e evs (mount i))]
              \<and> fetchProductDetails e (params_id (run e evs (mount i))) = Inr q
            \<longrightarrow> in_flight (run e (evs @ [Settle 0]) (mount i)) = []
                \<and> params_id (run e (evs @ [Settle 0]) (mount i)) = params_id (run e evs (mount i))
                \<and> product (view (run e (evs @ [Settle 0]) (mount i))) = Some q
                \<and> loading (view (run e (evs @ [Settle 0]) (mount i))) = False)"
proof -
  have "product (view (mount i)) = None"
    by (simp add: mount_def loadProductDetails_start_def initial_state_def)
  with run_product [of e evs "mount i"]
  have stored: "product (view (run e evs (mount i))) =
           (case commits e (mount i) evs of
              [] \<Rightarrow> None
            | c # cs \<Rightarrow> Some (snd (last (c # cs))))"
    by (simp split: list.splits)
  have fetched: "\<forall>c \<in> set (commits e (mount i) evs). fetchProductDetails e (fst c) = Inr (snd c)"
  proof
    fix c assume "c \<in> set (commits e (mount i) evs)"
    then have "(fst c, snd c) \<in> set (commits e (mount i) evs)"
      by simp
    then show "fetchProductDetails e (fst c) = Inr (snd c)"
      by (rule commits_fetched)
  qed
  have current: "fetchProductDetails e (params_id (run e evs (mount i))) =
                  Inr (snd (last (commits e (mount i) evs)))
                \<and> product (view (run e evs (mount i))) =
                  Some (snd (last (commits e (mount i) evs)))"
    if "commits e (mount i) evs \<noteq> []
        \<and> fst (last (commits e (mount i) evs)) = params_id (run e evs (mount i))"
  proof -
    from that have "last (commits e (mount i) evs) \<in> set (commits e (mount i) evs)"
      by simp
    with fetched have "fetchProductDetails e (fst (last (commits e (mount i) evs))) =
        Inr (snd (last (commits e (mount i) evs)))"
      by blast
    with that stored show ?thesis
      by (auto split: list.splits)
  qed
  have latest_last: "in_flight (run e (evs @ [Settle 0]) (mount i)) = []
                \<and> params_id (run e (evs @ [Settle 0]) (mount i)) = params_id (run e evs (mount i))
                \<and> product (view (run e (evs @ [Settle 0]) (mount i))) = Some q
                \<and> loading (view (run e (evs @ [Settle 0]) (mount i))) = False"
    if "in_flight (run e evs (mount i)) = [params_id (run e evs (mount i))]
        \<and> fetchProductDetails e (params_id (run e evs (mount i))) = Inr q"
    using that by (simp add: run_append run_def resume_success)
  from stored fetched current latest_last show ?thesis
    by blast
qed

theorem settled_state_holds_last_response_witness:
  "commits sample_env (mount ''1'') [ChangeId ''2'', Settle 0] = [(''1'', lamp)]
   \<and> fetchProductDetails sample_env ''1'' = Inr lamp
   \<and> product (view (run sample_env [ChangeId ''2'', Settle 0] (mount ''1''))) = Some lamp
   \<and> in_flight (run sample_env [ChangeId ''2'', Settle 0] (mount ''1'')) = [''2'']
   \<and> params_id (run sample_env [ChangeId ''2'', Settle 0] (mount ''1'')) = ''2''
   \<and> fetchProductDetails sample_env ''2'' = Inr desk
   \<and> in_flight (run sample_env ([ChangeId ''2'', Settle 0] @ [Settle 0]) (mount ''1'')) = []
   \<and> product (view (run sample_env ([ChangeId ''2'', Settle 0] @ [Settle 0]) (mount ''1''))) = Some desk
   \<and> loading (view (run sample_env ([ChangeId ''2'', Settle 0] @ [Settle 0]) (mount ''1''))) = False
   \<and> commits sample_env (mount ''1'') [ChangeId ''2'', Settle 0, Settle 0] =
       [(''1'', lamp), (''2'', desk)]
   \<and> params_id (run sample_env [ChangeId ''2'', Settle 0, Settle 0] (mount ''1'')) = ''2''
   \<and> product (view (run sample_env [ChangeId ''2'', Settle 0, Settle 0] (mount ''1''))) = Some desk"
proof -
  have cs: "commits sample_env (mount ''1'') [ChangeId ''2'', Settle 0] = [(''1'', lamp)]"
    by (simp add: mount_def sample_env_def fetchProductDetails_def ok_def)
  have cs': "commits sample_env (mount ''1'') [ChangeId ''2'', Settle 0, Settle 0] =
       [(''1'', lamp), (''2'', desk)]"
    by (simp add: mount_def sample_env_def fetchProductDetails_def ok_def
        loadProductDetails_resume_def)
  have fl: "in_flight (run sample_env [ChangeId ''2'', Settle 0] (mount ''1'')) = [''2'']"
    and id: "params_id (run sample_env [ChangeId ''2'', Settle 0] (mount ''1'')) = ''2''"
    and id': "params_id (run sample_env [ChangeId ''2'', Settle 0, Settle 0] (mount ''1'')) = ''2''"
    by (simp_all add: run_def mount_def sample_env_def fetchProductDetails_def ok_def
        loadProductDetails_resume_def)
  have f2: "fetchProductDetails sample_env ''2'' = Inr desk"
    by (simp add: fetchProductDetails_def sample_env_def ok_def)
  from settled_state_holds_last_response
         [of sample_env "[ChangeId ''2'', Settle 0]" "''1''" desk]
       settled_state_holds_last_response
         [of sample_env "[ChangeId ''2'', Settle 0, Settle 0]" "''1''" desk]
       cs cs' fl id id' f2
  show ?thesis by simp
qed

subsection \<open>What an identifier change leaves alone\<close>

text \<open>
  Claim C10. An identifier change leaves the carousel index and the visibility of the
  reviews panel unchanged: the effect resets only the loading and error fields, and the
  response that follows touches neither. A selected image index and an open reviews
  panel persist across products, and the index may exceed the new product's image
  count: after two "next" clicks on the lamp and a change to the desk, which has one
  image, the index is 2 and the main image reads \<open>undefined\<close>.
\<close>

theorem id_change_keeps_index_and_visibility:
  "view (step e pg (ChangeId i)) =
     (if i = params_id pg then view pg else (view pg)\<lparr>loading := True, error := None\<rparr>)
   \<and> currentImageIndex (view (step e pg (ChangeId i))) = currentImageIndex (view pg)
   \<and> reviewsVisible (view (step e pg (ChangeId i))) = reviewsVisible (view pg)
   \<and> currentImageIndex (view (step e pg (Settle k))) = currentImageIndex (view pg)
   \<and> reviewsVisible (view (step e pg (Settle k))) = reviewsVisible (view pg)
   \<and> view (run sample_env [Settle 0, ClickNext, ClickNext, ClickReviewsButton, ChangeId ''2'', Settle 0]
        (mount ''1'')) =
      \<lparr>product = Some desk, loading = False, error = None, currentImageIndex = 2, reviewsVisible = True\<rparr>
   \<and> length (images desk) = 1
   \<and> image_at (images desk) 2 = None"
proof -
  have settle: "currentImageIndex (view (step e pg (Settle k))) = currentImageIndex (view pg)
     \<and> reviewsVisible (view (step e pg (Settle k))) = reviewsVisible (view pg)"
    by (cases "fetchProductDetails e (in_flight pg ! k)")
      (simp_all add: resume_failure resume_success)
  have sample: "view (run sample_env [Settle 0, ClickNext, ClickNext, ClickReviewsButton, ChangeId ''2'', Settle 0]
        (mount ''1'')) =
      \<lparr>product = Some desk, loading = False, error = None, currentImageIndex = 2, reviewsVisible = True\<rparr>"
    by code_simp
  have desk: "length (images desk) = 1 \<and> image_at (images desk) 2 = None"
    by (simp add: desk_def image_at_def)
  from settle sample desk show ?thesis
    by (simp add: loadProductDetails_start_def)
qed

subsection \<open>The product page\<close>

text \<open>
  When the component returns the product page, a product is stored and each part of
  the page is what the corresponding expression computes from it.
\<close>

lemma product_page_parts:
  assumes "ProductDetails e s = Inr (ProductPage shown)"
  shows "\<exists>p. product s = Some p
           \<and> render_rating_stars p = Inr (rating_stars shown)
           \<and> render_reviews_panel e (reviewsVisible s) p = Inr (reviews_panel shown)
           \<and> render_rated_text p = Inr (rated_text shown)
           \<and> stock_badge shown = render_stock_badge p
           \<and> main_image shown = image_at (images p) (currentImageIndex s)"
  using assms
  by (auto simp: ProductDetails_def render_product_page_def
      split: if_splits option.splits sum.splits)

text \<open>
  Claim C7. For every rendered product, the stock badge shows the in-stock
  presentation exactly when \<open>stock > 0\<close> and the out-of-stock presentation otherwise, and
  it depends on nothing but the stock field: two renders of products with the same stock,
  in any two states, show the same badge.
\<close>

theorem stock_badge_from_stock:
  assumes "ProductDetails e s = Inr (ProductPage shown)" and "product s = Some p"
    and "ProductDetails e' s' = Inr (ProductPage shown')" and "product s' = Some p'"
    and "stock p' = stock p"
  shows "stock_badge shown =
           (if stock p > 0
            then \<lparr>badge_class = ''bg-indigo-600'', badge_label = ''In Stock''\<rparr>
            else \<lparr>badge_class = ''bg-red-500'', badge_label = ''Out of Stock''\<rparr>)
         \<and> stock_badge shown' = stock_badge shown"
proof -
  from product_page_parts [OF assms(1)] assms(2)
  have "stock_badge shown = render_stock_badge p" by auto
  moreover from product_page_parts [OF assms(3)] assms(4)
  have "stock_badge shown' = render_stock_badge p'" by auto
  ultimately show ?thesis
    using assms(5) by (simp add: render_stock_badge_def)
qed

theorem stock_badge_from_stock_witness:
  "product (lamp_shown 0 False) = Some lamp
   \<and> product (lamp_shown 2 True) = Some lamp
   \<and> 0 < stock lamp
   \<and> (\<exists>shown shown'. ProductDetails sample_env (lamp_shown 0 False) = Inr (ProductPage shown)
        \<and> ProductDetails sample_env (lamp_shown 2 True) = Inr (ProductPage shown')
        \<and> stock_badge shown = \<lparr>badge_class = ''bg-indigo-600'', badge_label = ''In Stock''\<rparr>
        \<and> stock_badge shown' = stock_badge shown)"
proof -
  have "case ProductDetails sample_env (lamp_shown 0 False) of
          Inr (ProductPage shown) \<Rightarrow> True | _ \<Rightarrow> False"
    by code_simp
  then obtain shown where
    r1: "ProductDetails sample_env (lamp_shown 0 False) = Inr (ProductPage shown)"
    by (auto split: sum.splits rendered.splits)
  have "case ProductDetails sample_env (lamp_shown 2 True) of
          Inr (ProductPage shown) \<Rightarrow> True | _ \<Rightarrow> False"
    by code_simp
  then obtain shown' where
    r2: "ProductDetails sample_env (lamp_shown 2 True) = Inr (ProductPage shown')"
    by (auto split: sum.splits rendered.splits)
  have p1: "product (lamp_shown 0 False) = Some lamp"
    and p2: "product (lamp_shown 2 True) = Some lamp"
    by (simp_all add: lamp_shown_def)
  have st: "0 < stock lamp" by (simp add: lamp_def)
  from stock_badge_from_stock [OF r1 p1 r2 p2 refl] st r1 r2 p1 p2 show ?thesis
    by simp
qed

subsection \<open>Rating stars\<close>

text \<open>
  \<open>Math_round\<close> is rounding half up: its result \<open>n\<close> is the one integer with
  \<open>n - 1/2 \<le> x < n + 1/2\<close>.
\<close>

lemma Math_round_half_up:
  "of_int (Math_round x) - 1 / 2 \<le> x \<and> x < of_int (Math_round x) + 1 / 2"
proof -
  have "of_int \<lfloor>x + 1 / 2\<rfloor> \<le> x + 1 / 2" and "x + 1 / 2 < of_int \<lfloor>x + 1 / 2\<rfloor> + 1"
    by linarith+
  then show ?thesis
    unfolding Math_round_def by linarith
qed

lemma Math_round_unique:
  assumes "of_int n - 1 / 2 \<le> x" and "x < of_int n + 1 / 2"
  shows "Math_round x = n"
  unfolding Math_round_def using assms by (intro floor_unique) simp_all

text \<open>
  The stars of a review: for a rating between 0 and 5, as many glyphs as the rating
  rounded half up.
\<close>

lemma review_stars_rounded:
  assumes "review.rating r = Some x" and "0 \<le> x" and "x \<le> 5"
  shows "\<exists>c. render_review e r = Inr c \<and> int (length (card_stars c)) = Math_round x"
proof -
  from assms have "0 \<le> Math_round x" "Math_round x \<le> 5"
    unfolding Math_round_def by linarith+
  then have "0 \<le> Math_round x \<and> Math_round x < 2 ^ 32" by simp
  with assms show ?thesis
    by (simp add: render_review_def or_zero_def Array_fill_join_def star_def length_concat sum_list_replicate)
qed

text \<open>
  The stars of the product: a numeric rating has no \<open>rate\<close> property, so line 180
  rounds 0. And when the page is displayed at all there are no stars, since an
  object-valued rating fails at line 182.
\<close>

lemma numeric_rating_no_stars:
  "product.rating p = Some (RatingNumber n) \<Longrightarrow> render_rating_stars p = Inr []"
  by (simp add: render_rating_stars_def optional_rate_def or_zero_def Math_round_def
      Array_fill_join_def)

lemma page_rating_stars_empty:
  assumes "ProductDetails e s = Inr (ProductPage shown)"
  shows "rating_stars shown = []"
proof -
  from product_page_parts [OF assms] obtain p where
    stars: "render_rating_stars p = Inr (rating_stars shown)" and
    rated: "render_rated_text p = Inr (rated_text shown)"
    by blast
  from rated have "optional_rate (product.rating p) = None"
    by (auto simp: render_rated_text_def optional_rate_def split: option.splits rating_json.splits)
  with stars show ?thesis
    by (simp add: render_rating_stars_def or_zero_def Math_round_def Array_fill_join_def)
qed

text \<open>
  Claim C1. The number of star glyphs equals the rating rounded half up, for the
  product's aggregate rating as for each review's rating; a rating of 4.6 renders 5
  glyphs. The lamp has the numeric rating 4.6, which rounds to 5, and its aggregate
  rating renders no glyph; the same rating on a review renders 5.
\<close>

theorem numeric_rating_renders_no_stars:
  "product.rating lamp = Some (RatingNumber (46 / 10))
   \<and> Math_round (46 / 10) = 5
   \<and> render_rating_stars lamp = Inr []
   \<and> review.rating ann_review = Some (46 / 10)
   \<and> map_sum (\<lambda>thrown. thrown) card_stars (render_review sample_env ann_review) =
       Inr (concat (replicate 5 star))"
proof -
  have round: "Math_round (46 / 10) = 5"
    by (rule Math_round_unique) simp_all
  have stars: "render_rating_stars lamp = Inr []"
    by (rule numeric_rating_no_stars [of _ "46 / 10"]) (simp add: lamp_def)
  from round stars show ?thesis
    by (simp add: lamp_def ann_review_def render_review_def or_zero_def Array_fill_join_def)
qed

subsection \<open>The reviews panel\<close>

lemma concat_replicate_star: "concat (replicate n star) = replicate n 0x2605"
  by (induction n) (simp_all add: star_def)

lemma render_review_card:
  assumes "render_review e r = Inr c"
  shows "c = \<lparr>card_name = reviewerName r,
              card_date = toLocaleDateString e (date r),
              card_comment = comment r,
              card_stars = replicate (nat (Math_round (or_zero (review.rating r)))) 0x2605\<rparr>"
  using assms
  by (auto simp: render_review_def Array_fill_join_def concat_replicate_star
      split: sum.splits if_splits)

lemma Array_map_Inr:
  assumes "Array_map f xs = Inr ys" and "\<And>x y. f x = Inr y \<Longrightarrow> y = g x"
  shows "ys = map g xs"
  using assms(1)
proof (induction xs arbitrary: ys)
  case Nil
  then show ?case by simp
next
  case (Cons x xs)
  from Cons.prems obtain y ys' where
    head: "f x = Inr y" and tail: "Array_map f xs = Inr ys'" and ys: "ys = y # ys'"
    by (auto split: sum.splits)
  from head have "y = g x" by (rule assms(2))
  moreover from tail have "ys' = map g xs" by (rule Cons.IH)
  ultimately show ?case using ys by simp
qed

text \<open>
  Claim C9. Whenever the reviews panel is visible: if the product's reviews sequence is
  non-empty, every review is rendered, in exactly the order of the sequence; if it is
  empty or absent, the message 'No reviews yet.' is rendered instead.
\<close>

theorem reviews_panel_lists_reviews_in_order:
  assumes "ProductDetails e s = Inr (ProductPage shown)"
    and "product s = Some p"
    and "reviewsVisible s"
  shows "reviews_panel shown =
           Some (case reviews p of
                   None \<Rightarrow> EmptyMessage ''No reviews yet.''
                 | Some rs \<Rightarrow>
                     if rs = [] then EmptyMessage ''No reviews yet.''
                     else ReviewCards
                       (map (\<lambda>r. \<lparr>card_name = reviewerName r,
                                   card_date = toLocaleDateString e (date r),
                                   card_comment = comment r,
                                   card_stars =
                                     replicate (nat (Math_round (or_zero (review.rating r))))
                                       0x2605\<rparr>)
                          rs))"
proof -
  from product_page_parts [OF assms(1)] assms(2,3)
  have panel: "render_reviews_panel e True p = Inr (reviews_panel shown)"
    by auto
  show ?thesis
  proof (cases "reviews p")
    case None
    with panel show ?thesis
      by (simp add: render_reviews_panel_def)
  next
    case (Some rs)
    show ?thesis
    proof (cases "rs = []")
      case True
      with Some panel show ?thesis
        by (simp add: render_reviews_panel_def)
    next
      case False
      with Some panel obtain cards where
        mapped: "Array_map (render_review e) rs = Inr cards" and
        shown: "reviews_panel shown = Some (ReviewCards cards)"
        by (auto simp: render_reviews_panel_def split: sum.splits)
      from mapped have "cards =
          map (\<lambda>r. \<lparr>card_name = reviewerName r,
                     card_date = toLocaleDateString e (date r),
                     card_comment = comment r,
                     card_stars =
                       replicate (nat (Math_round (or_zero (review.rating r)))) 0x2605\<rparr>) rs"
        by (rule Array_map_Inr) (rule render_review_card)
      with Some False shown show ?thesis by simp
    qed
  qed
qed

theorem reviews_panel_lists_reviews_in_order_witness:
  "product (lamp_shown 0 True) = Some lamp
   \<and> reviewsVisible (lamp_shown 0 True)
   \<and> reviews lamp = Some [ann_review, bob_review]
   \<and> (\<exists>shown. ProductDetails sample_env (lamp_shown 0 True) = Inr (ProductPage shown)
        \<and> reviews_panel shown =
            Some (ReviewCards
              [\<lparr>card_name = ''Ann'', card_date = ''2024-05-01'', card_comment = ''Good'',
                card_stars = replicate 5 0x2605\<rparr>,
               \<lparr>card_name = ''Bob'', card_date = ''2024-06-01'', card_comment = ''Fine'',
                card_stars = replicate 4 0x2605\<rparr>]))"
proof -
  have "case ProductDetails sample_env (lamp_shown 0 True) of
          Inr (ProductPage shown) \<Rightarrow> True | _ \<Rightarrow> False"
    by code_simp
  then obtain shown where
    r: "ProductDetails sample_env (lamp_shown 0 True) = Inr (ProductPage shown)"
    by (auto split: sum.splits rendered.splits)
  have p: "product (lamp_shown 0 True) = Some lamp"
    and vis: "reviewsVisible (lamp_shown 0 True)"
    by (simp_all add: lamp_shown_def)
  have rs: "reviews lamp = Some [ann_review, bob_review]"
    by (simp add: lamp_def)
  have cards:
    "map (\<lambda>r. \<lparr>card_name = reviewerName r,
               card_date = toLocaleDateString sample_env (date r),
               card_comment = comment r,
               card_stars = replicate (nat (Math_round (or_zero (review.rating r)))) 0x2605\<rparr>)
       [ann_review, bob_review] =
     [\<lparr>card_name = ''Ann'', card_date = ''2024-05-01'', card_comment = ''Good'',
       card_stars = replicate 5 0x2605\<rparr>,
      \<lparr>card_name = ''Bob'', card_date = ''2024-06-01'', card_comment = ''Fine'',
       card_stars = replicate 4 0x2605\<rparr>]"
    by code_simp
  from reviews_panel_lists_reviews_in_order [OF r p vis] rs cards r p vis show ?thesis
    by simp
qed

subsection \<open>The page renders for the products of the data model\<close>

text \<open>
  The hypotheses that the page is rendered, in the theorems above, hold for every
  product that the data model describes: once loading has ended without an error, a
  product whose rating is absent or a number and whose reviews are rated between 0 and 5
  is displayed.
\<close>

lemma Array_map_total:
  assumes "\<And>x. x \<in> set xs \<Longrightarrow> \<exists>y. f x = Inr y"
  shows "\<exists>ys. Array_map f xs = Inr ys"
  using assms
proof (induction xs)
  case Nil
  then show ?case by simp
next
  case (Cons x xs)
  from Cons.prems obtain y where "f x = Inr y" by auto
  moreover from Cons obtain ys where "Array_map f xs = Inr ys" by auto
  ultimately show ?case by simp
qed

lemma render_review_total:
  assumes "\<And>x. review.rating r = Some x \<Longrightarrow> 0 \<le> x \<and> x \<le> 5"
  shows "\<exists>c. render_review e r = Inr c"
proof (cases "review.rating r")
  case None
  then show ?thesis
    by (simp add: render_review_def or_zero_def Math_round_def Array_fill_join_def)
next
  case (Some x)
  with assms have "0 \<le> x" "x \<le> 5" by auto
  with Some review_stars_rounded [of r x e] show ?thesis by auto
qed

lemma product_page_renders:
  assumes "\<not> loading s" and "error s = None" and "product s = Some p"
    and "product.rating p = None \<or> (\<exists>n. product.rating p = Some (RatingNumber n))"
    and "\<And>rs r x. reviews p = Some rs \<Longrightarrow> r \<in> set rs \<Longrightarrow> review.rating r = Some x
            \<Longrightarrow> 0 \<le> x \<and> x \<le> 5"
  shows "\<exists>shown. ProductDetails e s = Inr (ProductPage shown)"
proof -
  from assms(4) have stars: "render_rating_stars p = Inr []"
    by (auto simp: render_rating_stars_def optional_rate_def or_zero_def Math_round_def
        Array_fill_join_def)
  from assms(4) have "\<exists>rated. render_rated_text p = Inr rated"
    by (auto simp: render_rated_text_def)
  then obtain rated where rated: "render_rated_text p = Inr rated" ..
  have "\<exists>panel. render_reviews_panel e (reviewsVisible s) p = Inr panel"
  proof (cases "reviews p")
    case None
    then show ?thesis by (simp add: render_reviews_panel_def)
  next
    case (Some rs)
    have "\<exists>cards. Array_map (render_review e) rs = Inr cards"
    proof (rule Array_map_total)
      fix r assume "r \<in> set rs"
      with Some assms(5) show "\<exists>c. render_review e r = Inr c"
        by (intro render_review_total) blast
    qed
    with Some show ?thesis by (auto simp: render_reviews_panel_def)
  qed
  then obtain panel where "render_reviews_panel e (reviewsVisible s) p = Inr panel" ..
  with stars rated assms(1,2,3) show ?thesis
    by (simp add: ProductDetails_def render_product_page_def)
qed

end
